theory Spec2Isabelle
  imports Complex_Main "HOL-Library.Word"
begin

section \<open>Image speed test: server (app.py) and download probe (image_speed_test.py)\<close>

text \<open>
  The server builds a synthetic test image, encodes it as JPEG (once at quality 85, or
  repeatedly with falling quality until a target size is met), records one entry per served
  image in the module-level list \<open>timing_data\<close> and answers statistics queries over it.
  The probe downloads a URL in chunks, measures the time and formats sizes and rates.

  Conventions of the embedding.
  \<^item> Python integers are \<open>int\<close>; Python floats are exact rationals (\<open>rat\<close>): every
    float operation of the two files is a comparison, a product with \<open>1.1\<close>, or a
    division, and the theorems below read them as exact arithmetic.
  \<^item> The JPEG codec, the random generator, the clock, the HTTP request context and the
    network are outside the repository; what they return is a parameter of the model.
    The one check of the imaging library that decides a result here, the size check of
    \<open>Image.new\<close>, is written out.
  \<^item> An exception is a value: a function that may raise returns \<open>error + 'a\<close>.
  \<^item> \<open>timing_data\<close> is passed in and returned.
\<close>

subsection \<open>Python helpers: range with a step, str of an integer\<close>

function py_range :: "int \<Rightarrow> int \<Rightarrow> int \<Rightarrow> int list" where
  "py_range i stop step =
     (if 0 < step \<and> i < stop then i # py_range (i + step) stop step else [])"
  by pat_completeness auto
termination
  by (relation "measure (\<lambda>(i, stop, step). nat (stop - i))") auto

declare py_range.simps [simp del]

definition digit_char :: "nat \<Rightarrow> char" where
  "digit_char d = ''0123456789'' ! d"

function str_nat :: "nat \<Rightarrow> string" where
  "str_nat n = (if n < 10 then [digit_char n] else str_nat (n div 10) @ [digit_char (n mod 10)])"
  by pat_completeness auto
termination
  by (relation "measure id") auto

declare str_nat.simps [simp del]

definition str_int :: "int \<Rightarrow> string" where
  "str_int i = (if i < 0 then ''-'' @ str_nat (nat (- i)) else str_nat (nat i))"

subsection \<open>The imaging library as the code uses it\<close>

type_synonym byte = "8 word"

type_synonym colour = "int \<times> int \<times> int"

text \<open>
  An image is the record of what was asked of the library: the size given to
  \<open>Image.new('RGB', (width, height), color='white')\<close> and the drawing calls made on it, in
  order. \<open>Rectangle x0 y0 x1 y1 c\<close> is \<open>draw.rectangle([x0, y0, x1, y1], fill=c)\<close>;
  \<open>DrawText x y s f\<close> is \<open>draw.text((x, y), s, fill='black')\<close>, with \<open>f\<close> telling
  whether a font was passed.
\<close>

datatype draw_op =
    Rectangle int int int int colour
  | DrawText int int string bool

record image =
  img_width :: int
  img_height :: int
  drawn :: "draw_op list"

datatype error = ValueError | EncodingFailure

text \<open>
  What the library and the random generator return:
  \<^item> \<open>randint n\<close> is the result of the \<open>n\<close>-th call of \<open>random.randint(0, 255)\<close>;
  \<open>load_default\<close> tells whether \<open>ImageFont.load_default()\<close> returned a font (the code
    catches its failure and goes on without one);
  \<^item> \<open>save_jpeg img q\<close> is what \<open>img.save(buf, format='JPEG', quality=q)\<close> writes into the
    emptied buffer, or the codec's failure.
\<close>

record pil =
  randint :: "nat \<Rightarrow> int"
  load_default :: bool
  save_jpeg :: "image \<Rightarrow> int \<Rightarrow> error + byte list"

text \<open>\<open>Image.new\<close> refuses a negative width or height (the library's size check).\<close>

definition Image_new :: "int \<Rightarrow> int \<Rightarrow> error + image" where
  "Image_new width height =
     (if width < 0 \<or> height < 0 then Inl ValueError
      else Inr \<lparr>img_width = width, img_height = height, drawn = []\<rparr>)"

subsection \<open>generate_test_image\<close>

text \<open>The grid, lines 37-44: the cells in the order the two loops visit them.\<close>

definition grid_cells :: "int \<Rightarrow> int \<Rightarrow> (int \<times> int) list" where
  "grid_cells width height =
     concat (map (\<lambda>i. map (\<lambda>j. (i, j)) (py_range 0 height 50)) (py_range 0 width 50))"

text \<open>One cell: three calls of \<open>randint\<close>, then the rectangle. The state is the image and
  the number of random calls made so far.\<close>

fun draw_cell :: "pil \<Rightarrow> image \<times> nat \<Rightarrow> int \<times> int \<Rightarrow> image \<times> nat" where
  "draw_cell P (img, n) (i, j) =
     (img\<lparr>drawn := drawn img @
        [Rectangle i j (i + 25) (j + 25) (randint P n, randint P (n + 1), randint P (n + 2))]\<rparr>,
      n + 3)"

definition draw_label :: "pil \<Rightarrow> image \<Rightarrow> int \<Rightarrow> int \<Rightarrow> image" where
  "draw_label P img width height =
     (let text = ''Speed Test Image - '' @ str_int width @ ''x'' @ str_int height
      in if load_default P
         then img\<lparr>drawn := drawn img @ [DrawText 50 50 text True]\<rparr>
         else img\<lparr>drawn := drawn img @ [DrawText 50 50 text False]\<rparr>)"

text \<open>Lines 33-58: the canvas, the grid, the label.\<close>

definition test_canvas :: "pil \<Rightarrow> int \<Rightarrow> int \<Rightarrow> error + image" where
  "test_canvas P width height =
     (case Image_new width height of
        Inl e \<Rightarrow> Inl e
      | Inr img \<Rightarrow>
          Inr (draw_label P (fst (foldl (draw_cell P) (img, 0) (grid_cells width height)))
                 width height))"

text \<open>
  The quality search, lines 67-77. One round encodes at \<open>quality\<close>, accepts when
  \<open>len / 1024 <= size_kb * 1.1\<close>, else lowers the quality by 5 and stops when it is below
  10. The result is the list of the qualities handed to the codec so far (the loop's
  calls of \<open>img.save\<close>, in order) and either the codec's failure or the final
  \<open>img_bytes\<close> and \<open>quality\<close>.
\<close>

definition within_target :: "byte list \<Rightarrow> int \<Rightarrow> bool" where
  "within_target bs size_kb \<longleftrightarrow>
     (of_nat (length bs) / 1024 :: rat) \<le> of_int size_kb * (11 / 10)"

function quality_search ::
  "pil \<Rightarrow> image \<Rightarrow> int \<Rightarrow> int \<Rightarrow> int list \<Rightarrow> int list \<times> (error + byte list \<times> int)" where
  "quality_search P img size_kb quality tried =
     (case save_jpeg P img quality of
        Inl e \<Rightarrow> (tried @ [quality], Inl e)
      | Inr bs \<Rightarrow>
          if within_target bs size_kb then (tried @ [quality], Inr (bs, quality))
          else if quality - 5 < 10 then (tried @ [quality], Inr (bs, quality - 5))
          else quality_search P img size_kb (quality - 5) (tried @ [quality]))"
  by pat_completeness auto
termination
  by (relation "measure (\<lambda>(P, img, size_kb, quality, tried). nat quality)") auto

declare quality_search.simps [simp del]

text \<open>Lines 61-82. \<open>if size_kb:\<close> is false for \<open>None\<close> and for \<open>0\<close>.\<close>

definition encode_image :: "pil \<Rightarrow> image \<Rightarrow> int option \<Rightarrow> error + byte list" where
  "encode_image P img size_kb =
     (case size_kb of
        None \<Rightarrow> save_jpeg P img 85
      | Some k \<Rightarrow>
          if k = 0 then save_jpeg P img 85
          else (case snd (quality_search P img k 85 []) of
                  Inl e \<Rightarrow> Inl e
                | Inr (bs, q) \<Rightarrow> Inr bs))"

definition generate_test_image :: "pil \<Rightarrow> int \<Rightarrow> int \<Rightarrow> int option \<Rightarrow> error + byte list" where
  "generate_test_image P width height size_kb =
     (case test_canvas P width height of
        Inl e \<Rightarrow> Inl e
      | Inr img \<Rightarrow> encode_image P img size_kb)"

subsection \<open>The request, the clock and timing_data\<close>

text \<open>
  What the handlers read of the request: \<open>request.environ.get('HTTP_X_FORWARDED_FOR')\<close>,
  \<open>request.remote_addr\<close> and \<open>request.headers.get('User-Agent')\<close> (each may be absent),
  and the two readings of \<open>time.time()\<close> in the order the handler takes them.
\<close>

record request_ctx =
  forwarded_for :: "string option"
  remote_addr :: "string option"
  user_agent_header :: "string option"
  clock_start :: rat
  clock_logged :: rat

text \<open>
  An entry of \<open>timing_data\<close>. The two handlers build dictionaries that differ in one key:
  \<open>'dimensions'\<close> (serve_image) or \<open>'target_size_kb'\<close> (serve_sized_image); the key that
  a dictionary does not have is \<open>None\<close> here.
\<close>

record request_data =
  timestamp :: rat
  client_ip :: "string option"
  user_agent :: string
  image_size :: nat
  dimensions :: "string option"
  target_size_kb :: "int option"
  start_time :: rat

definition get_client_ip :: "request_ctx \<Rightarrow> string option" where
  "get_client_ip req = (case forwarded_for req of Some a \<Rightarrow> Some a | None \<Rightarrow> remote_addr req)"

definition get_user_agent :: "request_ctx \<Rightarrow> string" where
  "get_user_agent req = (case user_agent_header req of Some a \<Rightarrow> a | None \<Rightarrow> ''Unknown'')"

text \<open>
  Lines 118-122 and 158-162, the same four lines in both handlers:
  \<open>timing_data.append(request_data)\<close>, then one \<open>timing_data.pop(0)\<close> when the list is
  longer than 100.
\<close>

definition log_request :: "request_data list \<Rightarrow> request_data \<Rightarrow> request_data list" where
  "log_request timing_data request_data =
     (let appended = timing_data @ [request_data]
      in if length appended > 100 then tl appended else appended)"

text \<open>What \<open>send_file\<close> is given.\<close>

record response =
  body :: "byte list"
  mimetype :: string
  download_name :: string

subsection \<open>The handlers\<close>

text \<open>
  A handler returns its response and the new \<open>timing_data\<close>. When the generation raises,
  the handler raises before it touches \<open>timing_data\<close>: the result is the error and the
  list stays as it was.
\<close>

definition serve_image ::
  "pil \<Rightarrow> request_ctx \<Rightarrow> request_data list \<Rightarrow> int \<Rightarrow> int \<Rightarrow> error + response \<times> request_data list" where
  "serve_image P req timing_data width height =
     (case generate_test_image P width height None of
        Inl e \<Rightarrow> Inl e
      | Inr img_bytes \<Rightarrow>
          let request_data =
                \<lparr>timestamp = clock_logged req,
                 client_ip = get_client_ip req,
                 user_agent = get_user_agent req,
                 image_size = length img_bytes,
                 dimensions = Some (str_int width @ ''x'' @ str_int height),
                 target_size_kb = None,
                 start_time = clock_start req\<rparr>
          in Inr (\<lparr>body = img_bytes, mimetype = ''image/jpeg'',
                    download_name =
                      ''test_image_'' @ str_int width @ ''x'' @ str_int height @ ''.jpg''\<rparr>,
                  log_request timing_data request_data))"

definition serve_sized_image ::
  "pil \<Rightarrow> request_ctx \<Rightarrow> request_data list \<Rightarrow> int \<Rightarrow> error + response \<times> request_data list" where
  "serve_sized_image P req timing_data size_kb =
     (case generate_test_image P 1920 1080 (Some size_kb) of
        Inl e \<Rightarrow> Inl e
      | Inr img_bytes \<Rightarrow>
          let request_data =
                \<lparr>timestamp = clock_logged req,
                 client_ip = get_client_ip req,
                 user_agent = get_user_agent req,
                 image_size = length img_bytes,
                 dimensions = None,
                 target_size_kb = Some size_kb,
                 start_time = clock_start req\<rparr>
          in Inr (\<lparr>body = img_bytes, mimetype = ''image/jpeg'',
                    download_name = ''test_image_'' @ str_int size_kb @ ''kb.jpg''\<rparr>,
                  log_request timing_data request_data))"

text \<open>
  The JSON objects of \<open>/stats\<close> and \<open>/clear-stats\<close>: the keys and values handed to
  \<open>jsonify\<close>, in the order the code writes them.
\<close>

datatype jvalue =
    JInt int
  | JNum rat
  | JStr string
  | JRequests "request_data list"

type_synonym json = "(string \<times> jvalue) list"

definition get_stats :: "request_data list \<Rightarrow> json" where
  "get_stats timing_data =
     (if timing_data = [] then
        [(''message'', JStr ''No requests yet''), (''total_requests'', JInt 0)]
      else
        let total_requests = length timing_data;
            total_size = sum_list (map image_size timing_data);
            avg_size = (if total_requests > 0
                        then JNum (of_nat total_size / of_nat total_requests) else JInt 0);
            recent_requests = drop (length timing_data - 10) timing_data
        in [(''total_requests'', JInt (int total_requests)),
            (''total_data_served'', JInt (int total_size)),
            (''average_image_size'', avg_size),
            (''recent_requests'', JRequests recent_requests)])"

definition clear_stats :: "request_data list \<Rightarrow> json \<times> request_data list" where
  "clear_stats timing_data = ([(''message'', JStr ''Stats cleared'')], [])"

text \<open>
  The server as a state machine over \<open>timing_data\<close>, which starts empty (line 18). The
  routes convert \<open>width\<close>, \<open>height\<close> and \<open>size_kb\<close> with \<open><int:...>\<close>.
\<close>

datatype route =
    GetImage request_ctx int int
  | GetSizedImage request_ctx int
  | GetStats
  | ClearStats

fun handle :: "pil \<Rightarrow> request_data list \<Rightarrow> route \<Rightarrow> request_data list" where
  "handle P timing_data (GetImage req width height) =
     (case serve_image P req timing_data width height of
        Inl e \<Rightarrow> timing_data | Inr (r, timing_data') \<Rightarrow> timing_data')"
| "handle P timing_data (GetSizedImage req size_kb) =
     (case serve_sized_image P req timing_data size_kb of
        Inl e \<Rightarrow> timing_data | Inr (r, timing_data') \<Rightarrow> timing_data')"
| "handle P timing_data GetStats = timing_data"
| "handle P timing_data ClearStats = snd (clear_stats timing_data)"

definition serve_all :: "pil \<Rightarrow> route list \<Rightarrow> request_data list" where
  "serve_all P routes = foldl (handle P) [] routes"

subsection \<open>format_bytes and format_speed\<close>

text \<open>
  \<open>f"{v:.2f}"\<close>: the decimal expansion of \<open>v\<close> with two digits after the point, the
  nearest one, a tie going to the even last digit.
\<close>

definition round_half_even :: "rat \<Rightarrow> int" where
  "round_half_even x =
     (let f = \<lfloor>x\<rfloor>; r = x - of_int f
      in if r < 1 / 2 then f else if 1 / 2 < r then f + 1 else if even f then f else f + 1)"

definition format_2f :: "rat \<Rightarrow> string" where
  "format_2f v =
     (let h = nat (round_half_even (\<bar>v\<bar> * 100));
          digits = str_nat (h div 100) @ ''.'' @
                   [digit_char (h mod 100 div 10), digit_char (h mod 10)]
      in if v < 0 then ''-'' @ digits else digits)"

text \<open>
  The loop of both formatters: for each unit in turn, return when the value is below
  1024, else divide by 1024; after the last unit of the list, return with the final unit.
\<close>

fun format_units :: "string list \<Rightarrow> string \<Rightarrow> rat \<Rightarrow> string" where
  "format_units [] final v = format_2f v @ '' '' @ final"
| "format_units (unit # units) final v =
     (if v < 1024 then format_2f v @ '' '' @ unit else format_units units final (v / 1024))"

definition format_bytes :: "rat \<Rightarrow> string" where
  "format_bytes bytes_value = format_units [''B'', ''KB'', ''MB'', ''GB''] ''TB'' bytes_value"

definition format_speed :: "rat \<Rightarrow> string" where
  "format_speed bytes_per_second =
     format_units [''B/s'', ''KB/s'', ''MB/s'', ''GB/s''] ''TB/s'' bytes_per_second"

subsection \<open>test_image_download_speed\<close>

text \<open>
  An exception raised inside the \<open>try\<close> block, with its \<open>str(e)\<close>: one of the class
  \<open>requests.exceptions.RequestException\<close>, or any other \<open>Exception\<close>.
\<close>

datatype exc = RequestException string | OtherException string

text \<open>
  A response as the code reads it: whether \<open>raise_for_status()\<close> raises (and with which
  message), the header \<open>content-length\<close>, the chunks \<open>iter_content\<close> yields, and the
  exception that ends the iteration early, if one does.
\<close>

record http_response =
  status_error :: "string option"
  content_length :: "string option"
  chunks :: "byte list list"
  stream_error :: "exc option"

text \<open>
  The world of one download: \<open>requests.get(url, stream=True, timeout=timeout)\<close>, the
  builtin \<open>int\<close> on a string (a value, or the message of its ValueError), and the two
  readings of \<open>time.time()\<close>.
\<close>

record net =
  requests_get :: "string \<Rightarrow> int \<Rightarrow> exc + http_response"
  py_int :: "string \<Rightarrow> string + int"
  time_start :: rat
  time_end :: rat

datatype pyval = PInt int | PFloat rat | PStr string | PBool bool

type_synonym result = "(string \<times> pyval) list"

text \<open>Lines 53-59: \<open>if content_length:\<close> is false for a missing and for an empty header.\<close>

definition read_total_size :: "net \<Rightarrow> http_response \<Rightarrow> exc + int option" where
  "read_total_size N resp =
     (case content_length resp of
        None \<Rightarrow> Inr None
      | Some s \<Rightarrow>
          if s = [] then Inr None
          else (case py_int N s of Inl m \<Rightarrow> Inl (OtherException m) | Inr n \<Rightarrow> Inr (Some n)))"

text \<open>Lines 62-67: empty chunks are skipped.\<close>

definition count_chunks :: "byte list list \<Rightarrow> nat" where
  "count_chunks cs = foldl (\<lambda>downloaded chunk.
       if chunk \<noteq> [] then downloaded + length chunk else downloaded) 0 cs"

text \<open>The \<open>try\<close> block, lines 45-93 (the printing left out).\<close>

definition download_attempt :: "net \<Rightarrow> string \<Rightarrow> int \<Rightarrow> exc + result" where
  "download_attempt N url timeout =
     (case requests_get N url timeout of
        Inl e \<Rightarrow> Inl e
      | Inr resp \<Rightarrow>
          (case status_error resp of
             Some m \<Rightarrow> Inl (RequestException m)
           | None \<Rightarrow>
               (case read_total_size N resp of
                  Inl e \<Rightarrow> Inl e
                | Inr total_size \<Rightarrow>
                    (case stream_error resp of
                       Some e \<Rightarrow> Inl e
                     | None \<Rightarrow>
                         let downloaded_bytes = count_chunks (chunks resp);
                             duration = time_end N - time_start N;
                             speed = (if duration > 0 then of_nat downloaded_bytes / duration else 0)
                         in Inr [(''url'', PStr url),
                                 (''size_bytes'', PInt (int downloaded_bytes)),
                                 (''size_formatted'', PStr (format_bytes (of_nat downloaded_bytes))),
                                 (''duration_seconds'', PFloat duration),
                                 (''speed_bps'', if duration > 0 then PFloat speed else PInt 0),
                                 (''speed_formatted'', PStr (format_speed speed)),
                                 (''success'', PBool True)]))))"

text \<open>The two \<open>except\<close> clauses, lines 95-108.\<close>

definition test_image_download_speed :: "net \<Rightarrow> string \<Rightarrow> int \<Rightarrow> result" where
  "test_image_download_speed N url timeout =
     (case download_attempt N url timeout of
        Inr results \<Rightarrow> results
      | Inl (RequestException m) \<Rightarrow>
          [(''url'', PStr url), (''error'', PStr m), (''success'', PBool False)]
      | Inl (OtherException m) \<Rightarrow>
          [(''url'', PStr url), (''error'', PStr m), (''success'', PBool False)])"

subsection \<open>Outcome of the search; sample worlds for concrete runs\<close>

text \<open>
  How one run of the search ended, given the quality \<open>ql\<close> of its last call of the codec:
  the codec raised there, or the loop left with the encoding made there, either accepted
  (the quality was not lowered) or not (the quality was lowered below 10).
\<close>

definition search_outcome ::
  "pil \<Rightarrow> image \<Rightarrow> int \<Rightarrow> int \<Rightarrow> (error + byte list \<times> int) \<Rightarrow> bool" where
  "search_outcome P img k ql res =
     (case res of
        Inl e \<Rightarrow> save_jpeg P img ql = Inl e
      | Inr (bs, qf) \<Rightarrow>
          save_jpeg P img ql = Inr bs \<and>
          (if within_target bs k then qf = ql else qf = ql - 5 \<and> qf < 10))"

text \<open>The qualities from 85 down to 10 in steps of 5.\<close>

definition all_qualities :: "int list" where
  "all_qualities = [85, 80, 75, 70, 65, 60, 55, 50, 45, 40, 35, 30, 25, 20, 15, 10]"


text \<open>
  A library whose codec writes \<open>quality\<close> KB whatever the image, whose random numbers
  count up modulo 256, and which has a default font.
\<close>

definition sample_pil :: pil where
  "sample_pil =
     \<lparr>randint = (\<lambda>n. int (n mod 256)), load_default = True,
      save_jpeg = (\<lambda>img quality. Inr (replicate (nat quality * 1024) 0))\<rparr>"








text \<open>
  Two sample networks: one whose response makes \<open>raise_for_status()\<close> raise, one that
  delivers 3072 bytes in three chunks (the second empty) within two seconds.
\<close>

definition sample_404 :: net where
  "sample_404 =
     \<lparr>requests_get = (\<lambda>url timeout. Inr \<lparr>status_error = Some ''404 Client Error'',
          content_length = None, chunks = [], stream_error = None\<rparr>),
      py_int = (\<lambda>s. Inl ''invalid literal for int()''),
      time_start = 0, time_end = 1\<rparr>"

definition sample_ok :: net where
  "sample_ok =
     \<lparr>requests_get = (\<lambda>url timeout. Inr \<lparr>status_error = None,
          content_length = Some ''3072'', chunks = [replicate 2048 0, [], replicate 1024 0],
          stream_error = None\<rparr>),
      py_int = (\<lambda>s. if s = ''3072'' then Inr 3072 else Inl ''invalid literal for int()''),
      time_start = 10, time_end = 12\<rparr>"

section \<open>Properties\<close>

subsection \<open>The transfer log\<close>

lemma log_request_length:
  "length td \<le> 100 \<Longrightarrow> length (log_request td r) = min (length td + 1) 100"
  by (auto simp: log_request_def Let_def)

text \<open>Appending to a list of at most 100 entries keeps the last 100 of the whole history.\<close>

lemma foldl_log_request:
  "length td \<le> 100 \<Longrightarrow>
   foldl log_request td rs = drop (length td + length rs - 100) (td @ rs)"
proof (induction rs arbitrary: td)
  case Nil
  then show ?case by simp
next
  case (Cons r rs)
  show ?case
  proof (cases "length td < 100")
    case True
    then have eq: "log_request td r = td @ [r]" by (simp add: log_request_def)
    have "length (td @ [r]) \<le> 100" using True by simp
    from Cons.IH[OF this] show ?thesis by (simp add: eq)
  next
    case False
    with Cons.prems have len: "length td = 100" by simp
    then have ne: "td \<noteq> []" by auto
    then have eq: "log_request td r = tl td @ [r]" using len by (simp add: log_request_def)
    have l2: "length (tl td @ [r]) \<le> 100" using len by simp
    have "drop (Suc (length rs)) (td @ r # rs) = drop (length rs) (tl td @ r # rs)"
      using ne by (cases td) simp_all
    with Cons.IH[OF l2] show ?thesis using len by (simp add: eq)
  qed
qed

text \<open>No route makes a list of at most 100 entries longer than 100.\<close>

lemma handle_length: "length td \<le> 100 \<Longrightarrow> length (handle P td r) \<le> 100"
  by (cases r)
     (auto simp: serve_image_def serve_sized_image_def clear_stats_def log_request_length Let_def
           split: sum.splits)

lemma foldl_handle_length: "length td \<le> 100 \<Longrightarrow> length (foldl (handle P) td rs) \<le> 100"
  by (induction rs arbitrary: td) (simp_all add: handle_length)

text \<open>What a handler that answers leaves in \<open>timing_data\<close> is the old list with one entry
  logged by \<open>log_request\<close>; the entry carries the size of the body sent.\<close>

lemma serve_image_logs:
  "serve_image P req td w h = Inr (r, td') \<Longrightarrow>
   \<exists>e. td' = log_request td e \<and> image_size e = length (body r)
       \<and> dimensions e = Some (str_int w @ ''x'' @ str_int h) \<and> target_size_kb e = None"
  by (auto simp: serve_image_def Let_def split: sum.splits)

lemma serve_sized_image_logs:
  "serve_sized_image P req td k = Inr (r, td') \<Longrightarrow>
   \<exists>e. td' = log_request td e \<and> image_size e = length (body r)
       \<and> dimensions e = None \<and> target_size_kb e = Some k"
  by (auto simp: serve_sized_image_def Let_def split: sum.splits)

lemma after_150_appends:
  "length rs = 150 \<Longrightarrow> foldl log_request [] rs = drop 50 rs"
  using foldl_log_request [of "[]" rs] by simp

text \<open>
  Claim C2. Starting from the empty list, after any sequence of appends (the four lines
  that both handlers run after building an entry) \<open>timing_data\<close> holds the most recent
  \<open>min n 100\<close> entries of the \<open>n\<close> appended, in the order they were appended, so for
  150 appends the last 100; and whatever sequence of routes the server has answered,
  \<open>timing_data\<close> has at most 100 entries.
\<close>

theorem timing_data_last_100:
  "foldl log_request [] rs = drop (length rs - 100) rs
   \<and> length (foldl log_request [] rs) = min (length rs) 100
   \<and> length (serve_all P routes) \<le> 100"
  using foldl_log_request [of "[]" rs] foldl_handle_length [of "[]" P routes]
  by (simp add: serve_all_def)

subsection \<open>The quality search\<close>

lemma upt_shift:
  "q # map (\<lambda>i. q - 5 - 5 * int i) [0..<Suc n] = map (\<lambda>i. q - 5 * int i) [0..<Suc (Suc n)]"
proof -
  have "[0..<Suc (Suc n)] = 0 # map Suc [0..<Suc n]"
    by (simp only: map_Suc_upt upt_conv_Cons [of 0 "Suc (Suc n)"])
  then show ?thesis by (simp add: comp_def algebra_simps del: upt_Suc)
qed

text \<open>
  A run from quality \<open>q\<close> calls the codec at \<open>q, q - 5, ..., q - 5 * n\<close> for some \<open>n\<close>,
  never below 10 after the first call; every call but the last gave an encoding that was
  too large; the last call decides the outcome.
\<close>

lemma quality_search_run:
  "\<exists>n. fst (quality_search P img k q t0) = t0 @ map (\<lambda>i. q - 5 * int i) [0..<Suc n]
     \<and> (n = 0 \<or> 10 \<le> q - 5 * int n)
     \<and> (\<forall>i<n. \<exists>bs. save_jpeg P img (q - 5 * int i) = Inr bs \<and> \<not> within_target bs k)
     \<and> search_outcome P img k (q - 5 * int n) (snd (quality_search P img k q t0))"
proof (induction P img k q t0 rule: quality_search.induct)
  case (1 P img k q t0)
  show ?case
  proof (cases "save_jpeg P img q")
    case (Inl e)
    then have "quality_search P img k q t0 = (t0 @ [q], Inl e)"
      by (simp add: quality_search.simps)
    then show ?thesis using Inl
      by (intro exI [of _ 0]) (simp add: search_outcome_def)
  next
    case (Inr bs)
    show ?thesis
    proof (cases "within_target bs k")
      case True
      then have "quality_search P img k q t0 = (t0 @ [q], Inr (bs, q))"
        using Inr by (simp add: quality_search.simps)
      then show ?thesis using Inr True
        by (intro exI [of _ 0]) (simp add: search_outcome_def)
    next
      case False
      show ?thesis
      proof (cases "q - 5 < 10")
        case True
        then have "quality_search P img k q t0 = (t0 @ [q], Inr (bs, q - 5))"
          using Inr False by (simp add: quality_search.simps)
        then show ?thesis using Inr False True
          by (intro exI [of _ 0]) (simp add: search_outcome_def)
      next
        case nf: False
        have eq: "quality_search P img k q t0 = quality_search P img k (q - 5) (t0 @ [q])"
          using Inr False nf by (subst quality_search.simps) simp
        from "1.IH" [OF Inr False nf] obtain n where
          a: "fst (quality_search P img k (q - 5) (t0 @ [q])) =
                (t0 @ [q]) @ map (\<lambda>i. q - 5 - 5 * int i) [0..<Suc n]"
          and b: "n = 0 \<or> 10 \<le> q - 5 - 5 * int n"
          and c: "\<forall>i<n. \<exists>bs. save_jpeg P img (q - 5 - 5 * int i) = Inr bs
                    \<and> \<not> within_target bs k"
          and d: "search_outcome P img k (q - 5 - 5 * int n)
                    (snd (quality_search P img k (q - 5) (t0 @ [q])))"
          by blast
        have a': "fst (quality_search P img k q t0) =
                    t0 @ map (\<lambda>i. q - 5 * int i) [0..<Suc (Suc n)]"
          using a upt_shift [of q n] by (simp add: eq del: upt_Suc)
        have b': "Suc n = 0 \<or> 10 \<le> q - 5 * int (Suc n)"
          using b nf by auto
        have c': "\<forall>i<Suc n. \<exists>bs. save_jpeg P img (q - 5 * int i) = Inr bs
                    \<and> \<not> within_target bs k"
        proof (intro allI impI)
          fix i assume "i < Suc n"
          show "\<exists>bs. save_jpeg P img (q - 5 * int i) = Inr bs \<and> \<not> within_target bs k"
          proof (cases i)
            case 0
            then show ?thesis using Inr False by simp
          next
            case (Suc j)
            with \<open>i < Suc n\<close> have "j < n" by simp
            with c have "\<exists>bs. save_jpeg P img (q - 5 - 5 * int j) = Inr bs
                           \<and> \<not> within_target bs k"
              by blast
            moreover have "q - 5 - 5 * int j = q - 5 * int i" using Suc by simp
            ultimately show ?thesis by simp
          qed
        qed
        have d': "search_outcome P img k (q - 5 * int (Suc n)) (snd (quality_search P img k q t0))"
        proof -
          have "q - 5 - 5 * int n = q - 5 * int (Suc n)" by simp
          with d show ?thesis by (simp add: eq)
        qed
        from a' b' c' d' show ?thesis by blast
      qed
    qed
  qed
qed

lemma all_q: "map (\<lambda>i. 85 - 5 * int i) [0..<16] = all_qualities"
  by (simp add: all_qualities_def upt_rec)

text \<open>From 85 the run is a prefix of 85, 80, ..., 10.\<close>

lemma search_from_85:
  obtains n where "n \<le> 15"
    and "fst (quality_search P img k 85 []) = take (Suc n) all_qualities"
    and "last (fst (quality_search P img k 85 [])) = 85 - 5 * int n"
    and "search_outcome P img k (85 - 5 * int n) (snd (quality_search P img k 85 []))"
proof -
  from quality_search_run [of P img k 85 "[]"] obtain n where
    a: "fst (quality_search P img k 85 []) = map (\<lambda>i. 85 - 5 * int i) [0..<Suc n]"
    and b: "n = 0 \<or> 10 \<le> 85 - 5 * int n"
    and d: "search_outcome P img k (85 - 5 * int n) (snd (quality_search P img k 85 []))"
    by auto
  from b have n: "n \<le> 15" by auto
  have "[0..<Suc n] = take (Suc n) [0..<16]" using n by (simp del: upt_Suc)
  then have "map (\<lambda>i. 85 - 5 * int i) [0..<Suc n] = take (Suc n) (map (\<lambda>i. 85 - 5 * int i) [0..<16])"
    by (simp only: take_map)
  with a have a': "fst (quality_search P img k 85 []) = take (Suc n) all_qualities"
    by (simp only: all_q)
  have l: "last (fst (quality_search P img k 85 [])) = 85 - 5 * int n"
    by (simp add: a del: upt_Suc) (simp add: last_map)
  from n a' l d that show thesis by blast
qed



text \<open>The acceptance test, in bytes.\<close>

lemma within_target_bytes:
  "within_target bs k \<longleftrightarrow> rat_of_nat (length bs) \<le> of_int k * (11 / 10) * 1024"
  by (simp add: within_target_def field_simps)

text \<open>
  Claim C1. For a strictly positive \<open>size_kb\<close>, a payload returned by
  \<open>generate_test_image\<close> in target-size mode is the encoding made by the last call of the
  codec, and either its length is at most \<open>size_kb * 1.1 * 1024\<close> bytes, or the search
  went through all the qualities 85, 80, ..., 10 and the payload is the encoding at
  quality 10.
\<close>

theorem target_size_or_floor:
  assumes "0 < k" and "generate_test_image P w h (Some k) = Inr payload"
  shows "\<exists>img. test_canvas P w h = Inr img
           \<and> save_jpeg P img (last (fst (quality_search P img k 85 []))) = Inr payload
           \<and> (rat_of_nat (length payload) \<le> of_int k * (11 / 10) * 1024
              \<or> fst (quality_search P img k 85 []) = all_qualities
                \<and> save_jpeg P img 10 = Inr payload)"
proof -
  from assms(2) obtain img where img: "test_canvas P w h = Inr img"
    and enc: "encode_image P img (Some k) = Inr payload"
    by (auto simp: generate_test_image_def split: sum.splits)
  from enc assms(1) obtain qf where res: "snd (quality_search P img k 85 []) = Inr (payload, qf)"
    by (auto simp: encode_image_def split: sum.splits)
  obtain n where n: "n \<le> 15"
    and t: "fst (quality_search P img k 85 []) = take (Suc n) all_qualities"
    and l: "last (fst (quality_search P img k 85 [])) = 85 - 5 * int n"
    and o: "search_outcome P img k (85 - 5 * int n) (snd (quality_search P img k 85 []))"
    by (rule search_from_85)
  have sc: "save_jpeg P img (85 - 5 * int n) = Inr payload
        \<and> (if within_target payload k then qf = 85 - 5 * int n
            else qf = 85 - 5 * int n - 5 \<and> qf < 10)"
    using o unfolding search_outcome_def res by (simp only: sum.case prod.case) blast
  then have s: "save_jpeg P img (85 - 5 * int n) = Inr payload" ..
  from sc have c: "if within_target payload k then qf = 85 - 5 * int n
        else qf = 85 - 5 * int n - 5 \<and> qf < 10" ..
  have "rat_of_nat (length payload) \<le> of_int k * (11 / 10) * 1024
        \<or> fst (quality_search P img k 85 []) = all_qualities \<and> save_jpeg P img 10 = Inr payload"
  proof (cases "within_target payload k")
    case True
    then show ?thesis by (simp only: within_target_bytes) simp
  next
    case False
    with c have "qf = 85 - 5 * int n - 5" "qf < 10" by simp_all
    with n have n15: "n = 15" by linarith
    with t have "fst (quality_search P img k 85 []) = all_qualities"
      by (simp add: all_qualities_def)
    moreover from s n15 have "save_jpeg P img 10 = Inr payload" by simp
    ultimately show ?thesis by simp
  qed
  with img s l show ?thesis by simp
qed

theorem target_size_or_floor_witness:
  "(0::int) < 50
   \<and> generate_test_image sample_pil 100 50 (Some 50) = Inr (replicate 56320 0)
   \<and> (\<exists>img. test_canvas sample_pil 100 50 = Inr img
           \<and> save_jpeg sample_pil img (last (fst (quality_search sample_pil img 50 85 []))) = Inr (replicate 56320 0)
           \<and> (rat_of_nat (length (replicate 56320 (0::byte))) \<le> of_int 50 * (11 / 10) * 1024
              \<or> fst (quality_search sample_pil img 50 85 []) = all_qualities
                \<and> save_jpeg sample_pil img 10 = Inr (replicate 56320 0)))"
proof -
  have run: "\<And>img. quality_search sample_pil img 50 85 [] =
       ([85, 80, 75, 70, 65, 60, 55], Inr (replicate 56320 0, 55))"
    by (simp add: quality_search.simps sample_pil_def within_target_def)
  have g: "generate_test_image sample_pil 100 50 (Some 50) = Inr (replicate 56320 0)"
    by (simp add: generate_test_image_def test_canvas_def Image_new_def encode_image_def run)
  from target_size_or_floor [of 50 sample_pil 100 50 "replicate 56320 0"] g show ?thesis
    by simp
qed

text \<open>A run that ends at the floor: the target of 1 KB is missed at every quality.\<close>

lemma floor_reached_example:
  "generate_test_image sample_pil 100 50 (Some 1) = Inr (replicate 10240 0)
   \<and> \<not> rat_of_nat (length (replicate 10240 (0::byte))) \<le> of_int 1 * (11 / 10) * 1024"
proof -
  have run: "\<And>img. quality_search sample_pil img 1 85 [] =
       (all_qualities, Inr (replicate 10240 0, 5))"
    by (simp add: quality_search.simps sample_pil_def within_target_def all_qualities_def)
  show ?thesis
    by (simp add: generate_test_image_def test_canvas_def Image_new_def encode_image_def run)
qed

subsection \<open>The canvas\<close>

text \<open>
  Drawing the grid leaves the size of the canvas as it is and appends one rectangle per
  cell, coloured by the next three random numbers.
\<close>

lemma draw_cells_size:
  "img_width (fst (foldl (draw_cell P) (img, n) cells)) = img_width img
   \<and> img_height (fst (foldl (draw_cell P) (img, n) cells)) = img_height img"
proof (induction cells arbitrary: img n)
  case Nil
  then show ?case by simp
next
  case (Cons c cells)
  obtain i j where c: "c = (i, j)" by (cases c)
  show ?case using Cons.IH by (simp add: c)
qed

lemma draw_cells_drawn:
  "drawn (fst (foldl (draw_cell P) (img, n) cells)) =
     drawn img @ map (\<lambda>(m, (i, j)). Rectangle i j (i + 25) (j + 25)
                        (randint P (n + 3 * m), randint P (n + 3 * m + 1), randint P (n + 3 * m + 2)))
                 (enumerate 0 cells)"
proof (induction cells arbitrary: img n)
  case Nil
  then show ?case by simp
next
  case (Cons c cells)
  obtain i j where c: "c = (i, j)" by (cases c)
  have "map (\<lambda>(m, (i, j)). Rectangle i j (i + 25) (j + 25)
                        (randint P (n + 3 * m), randint P (n + 3 * m + 1), randint P (n + 3 * m + 2)))
                 (enumerate (Suc 0) cells)
      = map (\<lambda>(m, (i, j)). Rectangle i j (i + 25) (j + 25)
                        (randint P (n + 3 + 3 * m), randint P (n + 3 + 3 * m + 1), randint P (n + 3 + 3 * m + 2)))
                 (enumerate 0 cells)"
    by (simp add: enumerate_Suc_eq [of 0] comp_def split_def algebra_simps del: enumerate_simps)
  then show ?case using Cons.IH [of _ "n + 3"] by (simp add: c)
qed

text \<open>
  With a width and a height that are not negative the canvas is built: it has the size
  asked for, one rectangle per cell, and the label drawn last.
\<close>

lemma test_canvas_ok:
  assumes "0 \<le> w" "0 \<le> h"
  shows "\<exists>img. test_canvas P w h = Inr img \<and> img_width img = w \<and> img_height img = h
     \<and> last (drawn img) = DrawText 50 50 (''Speed Test Image - '' @ str_int w @ ''x'' @ str_int h) (load_default P)
     \<and> length (drawn img) = length (grid_cells w h) + 1"
  using assms
  by (simp add: test_canvas_def Image_new_def draw_label_def draw_cells_size draw_cells_drawn Let_def)


text \<open>
  The generation returns a payload whenever the width and the height are not negative and
  the codec returns an encoding at every quality; then \<open>serve_image\<close> answers too.
\<close>

lemma generate_returns:
  assumes "0 \<le> w" "0 \<le> h" and "\<forall>img q. \<exists>bs. save_jpeg P img q = Inr bs"
  shows "\<exists>payload. generate_test_image P w h s = Inr payload"
proof -
  from test_canvas_ok [OF assms(1,2), of P] obtain img where c: "test_canvas P w h = Inr img"
    by blast
  from assms(3) obtain bs where b: "save_jpeg P img 85 = Inr bs" by blast
  show ?thesis
  proof (cases "s = None \<or> s = Some 0")
    case True
    with c b show ?thesis by (auto simp: generate_test_image_def encode_image_def)
  next
    case False
    then obtain k where k: "s = Some k" "k \<noteq> 0" by auto
    obtain n where "search_outcome P img k (85 - 5 * int n) (snd (quality_search P img k 85 []))"
      by (rule search_from_85)
    moreover from assms(3) have "save_jpeg P img (85 - 5 * int n) \<noteq> Inl e" for e
      by (metis sum.distinct(1))
    ultimately obtain r where "snd (quality_search P img k 85 []) = Inr r"
      by (cases "snd (quality_search P img k 85 [])") (auto simp: search_outcome_def)
    with c k show ?thesis
      by (cases r) (simp add: generate_test_image_def encode_image_def)
  qed
qed

lemma serve_image_returns:
  assumes "0 \<le> w" "0 \<le> h" and "\<forall>img q. \<exists>bs. save_jpeg P img q = Inr bs"
  shows "\<exists>r td'. serve_image P req td w h = Inr (r, td')"
  using generate_returns [OF assms, of None]
  by (auto simp: serve_image_def Let_def)

lemma str_1920: "str_int 1920 = ''1920''"
  by (simp add: str_int_def str_nat.simps digit_char_def)

lemma str_1080: "str_int 1080 = ''1080''"
  by (simp add: str_int_def str_nat.simps digit_char_def)

text \<open>
  Claim C10. In target-size mode the canvas is the one of \<open>test_canvas P 1920 1080\<close>:
  1920 wide, 1080 high, labelled \<open>Speed Test Image - 1920x1080\<close>. It is the same canvas
  for every request, list and \<open>size_kb\<close>; the body that \<open>serve_sized_image\<close> sends (or
  the error it raises) is the encoding of that canvas for the target \<open>size_kb\<close>.
\<close>

theorem sized_image_canvas_fixed:
  "\<exists>img. test_canvas P 1920 1080 = Inr img \<and> img_width img = 1920 \<and> img_height img = 1080
     \<and> last (drawn img) = DrawText 50 50 ''Speed Test Image - 1920x1080'' (load_default P)
     \<and> (\<forall>req td k. map_sum id (\<lambda>(r, td'). body r) (serve_sized_image P req td k)
                      = encode_image P img (Some k))"
proof -
  from test_canvas_ok [of 1920 1080 P] obtain img where
    c: "test_canvas P 1920 1080 = Inr img" and w: "img_width img = 1920"
    and h: "img_height img = 1080"
    and l: "last (drawn img) = DrawText 50 50 ''Speed Test Image - 1920x1080'' (load_default P)"
    by (auto simp: str_1920 str_1080)
  have "map_sum id (\<lambda>(r, td'). body r) (serve_sized_image P req td k) = encode_image P img (Some k)"
    for req td k
    by (simp add: serve_sized_image_def generate_test_image_def c Let_def split: sum.splits)
  with c w h l show ?thesis by blast
qed

subsection \<open>No validation of the request\<close>



subsection \<open>serve_image: the payload and the count\<close>






subsection \<open>Statistics\<close>

text \<open>
  Claim C6. On the empty list \<open>get_stats\<close> answers with the message
  \<open>No requests yet\<close> and a count of 0, and with none of the keys
  \<open>total_data_served\<close>, \<open>average_image_size\<close>, \<open>recent_requests\<close>; \<open>clear_stats\<close>
  leaves the empty list, so \<open>get_stats\<close> after it gives that answer. On a list that is
  not empty the answer has no message and has the totals, so the two answers differ.
\<close>

theorem empty_stats_signal:
  "get_stats [] = [(''message'', JStr ''No requests yet''), (''total_requests'', JInt 0)]
   \<and> snd (clear_stats td) = []
   \<and> get_stats (snd (clear_stats td)) =
       [(''message'', JStr ''No requests yet''), (''total_requests'', JInt 0)]
   \<and> map_of (get_stats []) ''total_data_served'' = None
   \<and> map_of (get_stats []) ''average_image_size'' = None
   \<and> map_of (get_stats []) ''recent_requests'' = None
   \<and> map_of (get_stats (e # es)) ''message'' = None
   \<and> map_of (get_stats (e # es)) ''total_data_served'' = Some (JInt (int (sum_list (map image_size (e # es)))))
   \<and> get_stats (e # es) \<noteq> get_stats []"
  by (simp add: get_stats_def clear_stats_def Let_def)

subsection \<open>The download probe\<close>

text \<open>
  What makes the \<open>try\<close> block raise: the request, the status check, \<open>int\<close> on the
  header, or the iteration over the chunks.
\<close>

lemma download_attempt_failure:
  "download_attempt N url timeout = Inl e \<longleftrightarrow>
     requests_get N url timeout = Inl e
     \<or> (\<exists>resp. requests_get N url timeout = Inr resp
          \<and> (case status_error resp of
                Some m \<Rightarrow> e = RequestException m
              | None \<Rightarrow>
                  (case read_total_size N resp of
                     Inl e' \<Rightarrow> e = e'
                   | Inr t \<Rightarrow> stream_error resp = Some e)))"
  by (auto simp: download_attempt_def Let_def split: sum.splits option.splits)


lemma http_404_example:
  "test_image_download_speed sample_404 ''http://localhost:5000/missing'' 30 =
     [(''url'', PStr ''http://localhost:5000/missing''), (''error'', PStr ''404 Client Error''),
      (''success'', PBool False)]"
  by (simp add: test_image_download_speed_def download_attempt_def sample_404_def)

lemma download_ok_example:
  "test_image_download_speed sample_ok ''http://localhost:5000/image/100kb'' 30 =
     [(''url'', PStr ''http://localhost:5000/image/100kb''),
      (''size_bytes'', PInt 3072),
      (''size_formatted'', PStr ''3.00 KB''),
      (''duration_seconds'', PFloat 2),
      (''speed_bps'', PFloat 1536),
      (''speed_formatted'', PStr ''1.50 KB/s''),
      (''success'', PBool True)]"
  by (simp add: test_image_download_speed_def download_attempt_def sample_ok_def
        read_total_size_def count_chunks_def Let_def
        format_bytes_def format_speed_def format_2f_def round_half_even_def
        str_nat.simps digit_char_def)

subsection \<open>Formatting\<close>

lemma floor_rat_numeral_div:
  "\<lfloor>numeral a / numeral b :: rat\<rfloor> = numeral a div numeral b"
  by (metis floor_divide_of_int_eq of_int_numeral)





lemma format_examples:
  "format_bytes 0 = ''0.00 B'' \<and> format_bytes 1536 = ''1.50 KB''
   \<and> format_bytes 112640 = ''110.00 KB'' \<and> format_speed (1 / 8) = ''0.12 B/s''
   \<and> format_speed (4 * 1024 * 1024) = ''4.00 MB/s''"
  by (simp add: format_bytes_def format_speed_def format_2f_def round_half_even_def
        str_nat.simps digit_char_def Let_def floor_rat_numeral_div)

end
